theory Spec2Isabelle
  imports Main
begin

section \<open>A counting semaphore over a buffered channel\<close>

text \<open>
  The Go package implements the semaphore as a buffered channel of empty structs,
  \<^verbatim>\<open>type semaphore chan struct{}\<close>: a slot is occupied by sending on the channel and
  released by receiving from it. The embedding below keeps that shape. The channel is a
  record of its capacity and its buffer, the built-ins \<^verbatim>\<open>make\<close>, \<^verbatim>\<open>cap\<close>, \<^verbatim>\<open>len\<close>, send and
  receive are functions on it, and each method of \<^verbatim>\<open>semaphore\<close> is a function that takes
  the channel and returns the channel it leaves behind.

  The embedding has two layers. The first follows one call from its entry to its
  return, or to the point where it parks on the \<^verbatim>\<open>select\<close>, on a channel no other
  goroutine is parked on: \<open>Acquire\<close>, \<open>Release\<close> and the capabilities as functions of the
  channel. The second adds the callers that are parked: the queue of waiting senders
  the Go runtime keeps with the channel, the hand-off from a receive to the oldest of
  them, and the wake-up of a parked caller whose context fires (\<open>Acquire_sys\<close>,
  \<open>Release_sys\<close>, \<open>ctx_Done_sys\<close>). With an empty queue the second layer is the first.
\<close>

subsection \<open>Channels\<close>

record 'a chan =
  cap :: nat
  buf :: "'a list"

datatype panic = MakechanSizeOutOfRange

text \<open>
  \<^verbatim>\<open>make(chan T, n)\<close>: a run-time panic when \<open>n\<close> is negative, an empty buffer of
  capacity \<open>n\<close> otherwise. (The element type \<^verbatim>\<open>struct{}\<close> has size zero, so no
  non-negative size is too large to allocate.)
\<close>

definition make_chan :: "int \<Rightarrow> panic + 'a chan" where
  "make_chan n = (if n < 0 then Inl MakechanSizeOutOfRange
                  else Inr \<lparr>cap = nat n, buf = []\<rparr>)"

definition cap_chan :: "'a chan \<Rightarrow> int" where
  "cap_chan c = int (cap c)"

definition len_chan :: "'a chan \<Rightarrow> int" where
  "len_chan c = int (length (buf c))"

text \<open>
  A send can proceed when the buffer has room; a receive when it holds an element. With
  capacity zero the channel is unbuffered and the buffer never has room: a send would
  need a receiver that is already waiting, and the package never waits in a receive
  (its only receive on the semaphore, in \<open>Release\<close>, stands beside a \<^verbatim>\<open>default\<close>).
  \<open>can_recv\<close> and \<open>recv\<close> are the receive on a channel with no sender parked; the receive
  that finds a parked sender is \<open>handoff\<close>, below.
\<close>

definition can_send :: "'a chan \<Rightarrow> bool" where
  "can_send c = (length (buf c) < cap c)"

definition send :: "'a chan \<Rightarrow> 'a \<Rightarrow> 'a chan" where
  "send c v = c\<lparr>buf := buf c @ [v]\<rparr>"

definition can_recv :: "'a chan \<Rightarrow> bool" where
  "can_recv c = (buf c \<noteq> [])"

definition recv :: "'a chan \<Rightarrow> 'a chan" where
  "recv c = c\<lparr>buf := tl (buf c)\<rparr>"

subsection \<open>Errors and contexts\<close>

text \<open>
  The package's two error values, and the two a \<^verbatim>\<open>context.Context\<close> reports from
  \<^verbatim>\<open>Err()\<close>. \<^verbatim>\<open>errors.New\<close> gives each error its own identity; \<open>Error\<close> is its message.
\<close>

datatype ctx_error = Canceled | DeadlineExceeded

datatype error = errEmpty | errTimeout | ctxErr ctx_error

fun Error :: "error \<Rightarrow> string" where
  "Error errEmpty = ''semaphore is empty''"
| "Error errTimeout = ''operation timeout''"
| "Error (ctxErr Canceled) = ''context canceled''"
| "Error (ctxErr DeadlineExceeded) = ''context deadline exceeded''"

text \<open>
  A context as \<open>Acquire\<close> observes it: \<open>Err\<close> is \<^verbatim>\<open>nil\<close> until the context is cancelled or
  its deadline passes, and the channel \<^verbatim>\<open>Done()\<close> is closed (a receive from it can
  proceed) exactly from then on.
\<close>

datatype Context = Ctx (Err: "ctx_error option")

definition Done :: "Context \<Rightarrow> bool" where
  "Done ctx = (Err ctx \<noteq> None)"

definition Background :: Context where
  "Background = Ctx None"

text \<open>
  \<^verbatim>\<open>context.WithTimeout(parent, timeout)\<close> as it is observed \<open>elapsed\<close> nanoseconds after
  the library read the clock: the deadline has passed when the timeout is not longer
  than the time elapsed, so a timeout that is zero or negative gives a context that is
  already done, and so does a positive one shorter than the time it took to get to the
  observation. \<open>cancel\<close> is the \<^verbatim>\<open>CancelFunc\<close>: the first cause of cancellation stays.
\<close>

definition WithTimeout :: "Context \<Rightarrow> int \<Rightarrow> nat \<Rightarrow> Context" where
  "WithTimeout parent timeout elapsed =
     (case Err parent of
        Some e \<Rightarrow> Ctx (Some e)
      | None \<Rightarrow> if timeout \<le> int elapsed then Ctx (Some DeadlineExceeded) else Ctx None)"

definition cancel :: "Context \<Rightarrow> Context" where
  "cancel ctx = (case Err ctx of Some e \<Rightarrow> ctx | None \<Rightarrow> Ctx (Some Canceled))"

subsection \<open>The semaphore\<close>

type_synonym semaphore = "unit chan"

text \<open>
  A \<^verbatim>\<open>ReleaseFunc\<close> is a \<^verbatim>\<open>func()\<close> closed over the semaphore: here, a function from
  the channel before the call to the channel after it.
\<close>

type_synonym ReleaseFunc = "semaphore \<Rightarrow> semaphore"

definition New :: "int \<Rightarrow> panic + semaphore" where
  "New capacity = make_chan capacity"

definition nothing :: ReleaseFunc where
  "nothing = (\<lambda>sem. sem)"

definition Capacity :: "semaphore \<Rightarrow> int" where
  "Capacity sem = cap_chan sem"

definition Occupied :: "semaphore \<Rightarrow> int" where
  "Occupied sem = len_chan sem"

text \<open>
  \<open>Release\<close> is a \<^verbatim>\<open>select\<close> with a \<^verbatim>\<open>default\<close>: it receives when a receive can proceed
  and returns \<open>errEmpty\<close> otherwise. The result is the returned error (\<open>None\<close> for
  \<^verbatim>\<open>nil\<close>) and the channel.
\<close>

definition Release :: "semaphore \<Rightarrow> error option \<times> semaphore" where
  "Release sem = (if can_recv sem then (None, recv sem) else (Some errEmpty, sem))"

definition releaser :: "(semaphore \<Rightarrow> error option \<times> semaphore) \<Rightarrow> ReleaseFunc" where
  "releaser release = (\<lambda>sem. snd (release sem))"

text \<open>
  \<open>Acquire\<close> is a \<^verbatim>\<open>select\<close> over two communications with no \<^verbatim>\<open>default\<close>: the send on
  the semaphore and the receive from \<^verbatim>\<open>ctx.Done()\<close>. When exactly one can proceed it is
  taken; when both can, Go chooses one of them pseudo-randomly, and \<open>pick\<close> is that
  choice; when neither can, the call parks, which is the result \<open>None\<close>.
\<close>

datatype select_pick = PickSend | PickDone

definition Acquire ::
  "select_pick \<Rightarrow> Context \<Rightarrow> semaphore \<Rightarrow> (ReleaseFunc \<times> error option \<times> semaphore) option" where
  "Acquire pick ctx sem =
     (case (can_send sem, Done ctx) of
        (True, False) \<Rightarrow> Some (releaser Release, None, send sem ())
      | (False, True) \<Rightarrow> Some (nothing, Some errTimeout, sem)
      | (True, True) \<Rightarrow>
          (case pick of
             PickSend \<Rightarrow> Some (releaser Release, None, send sem ())
           | PickDone \<Rightarrow> Some (nothing, Some errTimeout, sem))
      | (False, False) \<Rightarrow> None)"

subsection \<open>Sequences of calls\<close>

text \<open>
  A caller's calls on one semaphore: \<open>Acquire\<close> with the context it passes and the
  choice the \<^verbatim>\<open>select\<close> makes, \<open>Release\<close>, and the two release capabilities \<open>Acquire\<close>
  hands out. An \<open>Acquire\<close> that parks leaves the channel as it is, and so does its
  wake-up, by a hand-off or by its context (\<open>channel_Acquire_sys\<close>, \<open>channel_Release_sys\<close>
  and \<open>channel_ctx_Done_sys\<close> below): on the channel, every step of the second layer is one
  of these calls.
\<close>

datatype call = CallAcquire select_pick Context | CallRelease | CallReleaser | CallNothing

fun exec :: "call \<Rightarrow> semaphore \<Rightarrow> semaphore" where
  "exec (CallAcquire pick ctx) sem =
     (case Acquire pick ctx sem of Some (_, _, sem') \<Rightarrow> sem' | None \<Rightarrow> sem)"
| "exec CallRelease sem = snd (Release sem)"
| "exec CallReleaser sem = releaser Release sem"
| "exec CallNothing sem = nothing sem"

fun run :: "call list \<Rightarrow> semaphore \<Rightarrow> semaphore" where
  "run [] sem = sem"
| "run (c # cs) sem = run cs (exec c sem)"

subsection \<open>Parked callers\<close>

text \<open>
  An \<open>Acquire\<close> whose \<^verbatim>\<open>select\<close> finds neither communication ready parks: the runtime
  puts the goroutine, with the value it wants to send, on the channel's queue of waiting
  senders, and the call returns only when it is woken. The state is the channel together
  with that queue, oldest sender first.
\<close>

record sem_state =
  channel :: semaphore
  sendq :: "unit list"

text \<open>What a call of \<open>Acquire\<close> returns to its caller: the capability and the error.\<close>

type_synonym returned = "ReleaseFunc \<times> error option"

text \<open>
  A parked \<open>Acquire\<close> is woken in one of two ways, and returns by the case of its
  \<^verbatim>\<open>select\<close> that woke it: by a receiver that took its value, \<^verbatim>\<open>return releaser(sem), nil\<close>;
  by its context, \<^verbatim>\<open>return nothing, errTimeout\<close>.
\<close>

definition granted :: returned where
  "granted = (releaser Release, None)"

definition timed_out :: returned where
  "timed_out = (nothing, Some errTimeout)"

text \<open>
  \<open>Acquire\<close> with the queue: the call returns what \<open>Acquire\<close> returns on the channel, or
  parks (\<open>None\<close>) at the end of the queue.
\<close>

definition Acquire_sys :: "select_pick \<Rightarrow> Context \<Rightarrow> sem_state \<Rightarrow> returned option \<times> sem_state" where
  "Acquire_sys pick ctx st =
     (case Acquire pick ctx (channel st) of
        Some (release, err, sem') \<Rightarrow> (Some (release, err), st\<lparr>channel := sem'\<rparr>)
      | None \<Rightarrow> (None, st\<lparr>sendq := sendq st @ [()]\<rparr>))"

text \<open>
  A receive that finds a sender parked. On a buffered channel the buffer is full: the
  receiver takes its head and the sender's value goes to its tail. On an unbuffered
  channel the receiver takes the sender's value directly. The length of the buffer is
  the same before and after.
\<close>

definition handoff :: "'a chan \<Rightarrow> 'a \<Rightarrow> 'a chan" where
  "handoff c v = (case buf c of [] \<Rightarrow> c | x # xs \<Rightarrow> c\<lparr>buf := xs @ [v]\<rparr>)"

text \<open>
  \<open>Release\<close> with the queue. The runtime's receive looks at the waiting senders first:
  if there is one, the receive proceeds, \<open>Release\<close> returns \<^verbatim>\<open>nil\<close>, and the oldest parked
  \<open>Acquire\<close> is woken and returns \<open>granted\<close>. With no sender parked it is \<open>Release\<close> on the
  channel. The result is the error \<open>Release\<close> returns, what the woken \<open>Acquire\<close> returns
  (\<open>None\<close> when none is woken), and the state. A capability \<open>releaser Release\<close> invoked
  while callers are parked is this function with its error dropped.
\<close>

definition Release_sys :: "sem_state \<Rightarrow> error option \<times> returned option \<times> sem_state" where
  "Release_sys st =
     (case sendq st of
        v # vs \<Rightarrow> (None, Some granted, \<lparr>channel = handoff (channel st) v, sendq = vs\<rparr>)
      | [] \<Rightarrow>
          (case Release (channel st) of
             (err, sem') \<Rightarrow> (err, None, st\<lparr>channel := sem'\<rparr>)))"

text \<open>
  The context of the parked \<open>Acquire\<close> at position \<open>i\<close> of the queue fires: the call
  leaves the queue and returns \<open>timed_out\<close>.
\<close>

definition ctx_Done_sys :: "nat \<Rightarrow> sem_state \<Rightarrow> returned option \<times> sem_state" where
  "ctx_Done_sys i st =
     (if i < length (sendq st)
      then (Some timed_out, st\<lparr>sendq := take i (sendq st) @ drop (Suc i) (sendq st)\<rparr>)
      else (None, st))"

text \<open>
  The loop of the package's linearity test, \<^verbatim>\<open>for i := 0; i < n; i++ { sem.Acquire(ctx) }\<close>:
  one \<open>Acquire\<close> per element of \<open>picks\<close>, all with the context \<open>ctx\<close>.
\<close>

definition acquires :: "Context \<Rightarrow> select_pick list \<Rightarrow> call list" where
  "acquires ctx picks = map (\<lambda>pick. CallAcquire pick ctx) picks"

section \<open>Properties\<close>

subsection \<open>Helper facts\<close>

lemma Occupied_send: "Occupied (send sem v) = Occupied sem + 1"
  by (simp add: Occupied_def len_chan_def send_def)

lemma Occupied_recv: "can_recv sem \<Longrightarrow> Occupied (recv sem) = Occupied sem - 1"
  by (cases "buf sem") (simp_all add: Occupied_def len_chan_def recv_def can_recv_def)

lemma can_recv_iff: "can_recv sem \<longleftrightarrow> 0 < Occupied sem"
  by (simp add: can_recv_def Occupied_def len_chan_def)

lemma can_send_iff: "can_send sem \<longleftrightarrow> Occupied sem < Capacity sem"
  by (simp add: can_send_def Occupied_def Capacity_def len_chan_def cap_chan_def)

lemma Capacity_send: "Capacity (send sem v) = Capacity sem"
  by (simp add: Capacity_def cap_chan_def send_def)

lemma Capacity_recv: "Capacity (recv sem) = Capacity sem"
  by (simp add: Capacity_def cap_chan_def recv_def)

lemma Occupied_nonneg: "0 \<le> Occupied sem"
  by (simp add: Occupied_def len_chan_def)

lemma Acquire_cases:
  "Acquire pick ctx sem = Some (releaser Release, None, send sem ()) \<and> can_send sem \<or>
   Acquire pick ctx sem = Some (nothing, Some errTimeout, sem) \<and> Done ctx \<or>
   Acquire pick ctx sem = None \<and> \<not> can_send sem \<and> \<not> Done ctx"
  by (cases "can_send sem"; cases "Done ctx"; cases pick) (simp_all add: Acquire_def)

lemma Acquire_live:
  "\<not> Done ctx \<Longrightarrow> can_send sem \<Longrightarrow>
   Acquire pick ctx sem = Some (releaser Release, None, send sem ())"
  by (simp add: Acquire_def)

lemma Acquire_full:
  "\<not> can_send sem \<Longrightarrow>
   Acquire pick ctx sem = (if Done ctx then Some (nothing, Some errTimeout, sem) else None)"
  by (simp add: Acquire_def)

lemma nothing_funpow: "(nothing ^^ n) s = s"
  by (induction n) (simp_all add: nothing_def)

lemma unit_snoc: "(xs :: unit list) @ [u] = u # xs"
  by (induction xs) simp_all

lemma recv_send: "recv (send sem ()) = sem"
  by (cases "buf sem") (simp_all add: recv_def send_def unit_snoc)

lemma releaser_Release: "releaser Release s = snd (Release s)"
  by (simp add: releaser_def)

lemma Release_send: "Release (send sem ()) = (None, sem)"
proof -
  have "can_recv (send sem ())"
    by (simp add: can_recv_def send_def)
  then show ?thesis
    by (simp add: Release_def recv_send)
qed

lemma exec_cases:
  "exec c sem = sem \<or> can_send sem \<and> exec c sem = send sem () \<or>
   can_recv sem \<and> exec c sem = recv sem"
proof (cases c)
  case (CallAcquire pick ctx)
  then show ?thesis using Acquire_cases [of pick ctx sem] by auto
next
  case CallRelease
  then show ?thesis by (simp add: Release_def)
next
  case CallReleaser
  then show ?thesis by (simp add: releaser_def Release_def)
next
  case CallNothing
  then show ?thesis by (simp add: nothing_def)
qed

lemma Capacity_exec: "Capacity (exec c sem) = Capacity sem"
  using exec_cases [of c sem] by (auto simp: Capacity_send Capacity_recv)

lemma Capacity_run: "Capacity (run cs sem) = Capacity sem"
  by (induction cs arbitrary: sem) (simp_all add: Capacity_exec)

lemma bounds_exec:
  assumes "Occupied sem \<le> Capacity sem"
  shows "Occupied (exec c sem) \<le> Capacity (exec c sem)"
  using exec_cases [of c sem] assms
  by (auto simp: Capacity_send Capacity_recv Occupied_send Occupied_recv can_send_iff)

lemma bounds_run:
  "Occupied sem \<le> Capacity sem \<Longrightarrow> Occupied (run cs sem) \<le> Capacity (run cs sem)"
  by (induction cs arbitrary: sem) (simp_all add: bounds_exec)

lemma New_Inr:
  "New capacity = Inr sem \<longleftrightarrow> 0 \<le> capacity \<and> sem = \<lparr>cap = nat capacity, buf = []\<rparr>"
  by (auto simp: New_def make_chan_def)

lemma run_snoc: "run (cs @ [c]) sem = exec c (run cs sem)"
  by (induction cs arbitrary: sem) simp_all

lemma Occupied_acquires:
  "\<not> Done ctx \<Longrightarrow> Occupied sem + int (length picks) \<le> Capacity sem \<Longrightarrow>
   Occupied (run (acquires ctx picks) sem) = Occupied sem + int (length picks)"
proof (induction picks arbitrary: sem)
  case Nil
  then show ?case by (simp add: acquires_def)
next
  case (Cons p ps)
  from Cons.prems have room: "can_send sem" by (simp add: can_send_iff)
  have "Occupied (run (acquires ctx ps) (send sem ())) = Occupied (send sem ()) + int (length ps)"
    using Cons.prems by (intro Cons.IH) (simp_all add: Occupied_send Capacity_send)
  moreover have "run (acquires ctx (p # ps)) sem = run (acquires ctx ps) (send sem ())"
    using Cons.prems(1) room by (simp add: acquires_def Acquire_live)
  ultimately show ?case by (simp add: Occupied_send)
qed

lemma handoff_unit: "handoff sem () = sem"
  by (cases "buf sem") (simp_all add: handoff_def unit_snoc)

lemma channel_Acquire_sys:
  "channel (snd (Acquire_sys pick ctx st)) = exec (CallAcquire pick ctx) (channel st)"
  by (simp add: Acquire_sys_def split: option.splits)

lemma channel_Release_sys:
  "channel (snd (snd (Release_sys st)))
     = (case sendq st of [] \<Rightarrow> exec CallRelease (channel st) | v # vs \<Rightarrow> exec CallNothing (channel st))"
  by (simp add: Release_sys_def handoff_unit nothing_def split: list.splits prod.splits)

lemma channel_ctx_Done_sys: "channel (snd (ctx_Done_sys i st)) = exec CallNothing (channel st)"
  by (simp add: ctx_Done_sys_def nothing_def)

subsection \<open>A cancelled acquisition holds no slot\<close>

text \<open>
  C1. Whenever \<open>Acquire\<close> returns with an error, it has taken no slot: the semaphore
  after the call is the semaphore before it, so the occupancy is unchanged; and the
  release capability returned with the error is \<open>nothing\<close>, which leaves every semaphore,
  and so its occupancy, unchanged however many times it is invoked.
\<close>

theorem Acquire_timeout_keeps_slot:
  assumes "Acquire pick ctx sem = Some (release, Some e, sem')"
  shows "sem' = sem \<and> Occupied sem' = Occupied sem \<and> release = nothing \<and>
         (\<forall>n s. (release ^^ n) s = s \<and> Occupied ((release ^^ n) s) = Occupied s)"
  using Acquire_cases [of pick ctx sem] assms by (auto simp: nothing_funpow)

theorem Acquire_timeout_keeps_slot_witness:
  "Acquire PickDone (cancel Background) \<lparr>cap = 1, buf = []\<rparr>
     = Some (nothing, Some errTimeout, \<lparr>cap = 1, buf = []\<rparr>) \<and>
   Occupied \<lparr>cap = 1, buf = []\<rparr> = 0 \<and>
   (nothing ^^ 3) \<lparr>cap = 1, buf = []\<rparr> = \<lparr>cap = 1, buf = []\<rparr> \<and>
   Occupied ((nothing ^^ 3) \<lparr>cap = 1, buf = []\<rparr>) = 0"
proof -
  have h: "Acquire PickDone (cancel Background) \<lparr>cap = 1, buf = []\<rparr>
             = Some (nothing, Some errTimeout, \<lparr>cap = 1, buf = []\<rparr>)"
    by (simp add: Acquire_def Done_def cancel_def Background_def can_send_def)
  have occ: "Occupied \<lparr>cap = 1, buf = []\<rparr> = 0"
    by (simp add: Occupied_def len_chan_def)
  from Acquire_timeout_keeps_slot [OF h] h occ show ?thesis
    by simp
qed

subsection \<open>Occupancy bounds\<close>

text \<open>
  C2. A semaphore constructed with a non-negative capacity exists, and after every
  sequence of calls on it (\<open>Acquire\<close> with any context and any choice of the \<^verbatim>\<open>select\<close>,
  \<open>Release\<close>, and the release capabilities) its occupancy is at least zero and at most
  its capacity.
\<close>

theorem occupancy_bounds:
  assumes "0 \<le> capacity"
  shows "\<exists>sem. New capacity = Inr sem \<and>
           (\<forall>cs. 0 \<le> Occupied (run cs sem) \<and> Occupied (run cs sem) \<le> Capacity (run cs sem))"
proof -
  let ?sem = "\<lparr>cap = nat capacity, buf = []\<rparr> :: semaphore"
  have new: "New capacity = Inr ?sem"
    using assms by (simp add: New_Inr)
  have "Occupied ?sem \<le> Capacity ?sem"
    by (simp add: Occupied_def Capacity_def len_chan_def cap_chan_def)
  then have "Occupied (run cs ?sem) \<le> Capacity (run cs ?sem)" for cs
    by (rule bounds_run)
  with new show ?thesis
    by (blast intro: Occupied_nonneg)
qed

theorem occupancy_bounds_witness:
  "(0::int) \<le> 2 \<and> New 2 = Inr \<lparr>cap = 2, buf = []\<rparr> \<and>
   0 \<le> Occupied (run [CallAcquire PickSend Background, CallAcquire PickDone Background,
                      CallAcquire PickSend Background, CallRelease, CallRelease, CallRelease]
                 \<lparr>cap = 2, buf = []\<rparr>) \<and>
   Occupied (run [CallAcquire PickSend Background, CallAcquire PickDone Background,
                  CallAcquire PickSend Background, CallRelease, CallRelease, CallRelease]
             \<lparr>cap = 2, buf = []\<rparr>)
     \<le> Capacity (run [CallAcquire PickSend Background, CallAcquire PickDone Background,
                  CallAcquire PickSend Background, CallRelease, CallRelease, CallRelease]
             \<lparr>cap = 2, buf = []\<rparr>)"
proof -
  have h: "(0::int) \<le> 2" by simp
  from occupancy_bounds [OF h] obtain sem where
    new: "New 2 = Inr sem" and
    bounds: "\<And>cs. 0 \<le> Occupied (run cs sem) \<and> Occupied (run cs sem) \<le> Capacity (run cs sem)"
    by blast
  from new have "sem = \<lparr>cap = 2, buf = []\<rparr>"
    by (simp add: New_def make_chan_def)
  with new bounds show ?thesis by (simp del: run.simps exec.simps)
qed

subsection \<open>Release\<close>




subsection \<open>Linear fill\<close>

text \<open>
  C4. Linear fill. On a fresh semaphore of capacity \<open>N\<close>, with a context that has not
  fired, each of the first \<open>N\<close> sequential calls of \<open>Acquire\<close> returns at once, with no
  error and with a capability that releases the slot: the call numbered \<open>k + 1\<close> finds
  the occupancy at \<open>k\<close> and leaves it at \<open>k + 1\<close>, whatever the \<^verbatim>\<open>select\<close> would choose, and
  the capability it returns, invoked on the semaphore the call left, is a \<open>Release\<close>
  that succeeds and gives back the semaphore from before the call, with the occupancy
  at \<open>k\<close> again. After the \<open>N\<close> calls the occupancy is \<open>N\<close>, the capability invoked then
  frees one slot, and one more \<open>Acquire\<close> parks.
\<close>

theorem linear_fill:
  assumes "New capacity = Inr sem0" and "\<not> Done ctx" and "int (length picks) = capacity"
  shows "(\<forall>k<length picks.
            Occupied (run (acquires ctx (take k picks)) sem0) = int k \<and>
            Acquire (picks ! k) ctx (run (acquires ctx (take k picks)) sem0)
              = Some (releaser Release, None, run (acquires ctx (take (Suc k) picks)) sem0) \<and>
            Occupied (run (acquires ctx (take (Suc k) picks)) sem0) = int k + 1 \<and>
            Release (run (acquires ctx (take (Suc k) picks)) sem0)
              = (None, run (acquires ctx (take k picks)) sem0) \<and>
            releaser Release (run (acquires ctx (take (Suc k) picks)) sem0)
              = run (acquires ctx (take k picks)) sem0 \<and>
            Occupied (releaser Release (run (acquires ctx (take (Suc k) picks)) sem0)) = int k) \<and>
         Occupied (run (acquires ctx picks) sem0) = capacity \<and>
         (0 < capacity \<longrightarrow>
            Occupied (releaser Release (run (acquires ctx picks) sem0)) = capacity - 1) \<and>
         Acquire pick ctx (run (acquires ctx picks) sem0) = None"
proof -
  from assms(1) have occ0: "Occupied sem0 = 0" and cap0: "Capacity sem0 = capacity"
    by (auto simp: New_Inr Occupied_def Capacity_def len_chan_def cap_chan_def)
  have occ: "Occupied (run (acquires ctx ps) sem0) = int (length ps)"
    if "length ps \<le> length picks" for ps
    using Occupied_acquires [OF assms(2), of sem0 ps] that assms(3) occ0 cap0 by simp
  have cap: "Capacity (run cs sem0) = capacity" for cs
    by (simp add: Capacity_run cap0)
  have step: "Occupied (run (acquires ctx (take k picks)) sem0) = int k \<and>
      Acquire (picks ! k) ctx (run (acquires ctx (take k picks)) sem0)
        = Some (releaser Release, None, run (acquires ctx (take (Suc k) picks)) sem0) \<and>
      Occupied (run (acquires ctx (take (Suc k) picks)) sem0) = int k + 1 \<and>
      Release (run (acquires ctx (take (Suc k) picks)) sem0)
        = (None, run (acquires ctx (take k picks)) sem0) \<and>
      releaser Release (run (acquires ctx (take (Suc k) picks)) sem0)
        = run (acquires ctx (take k picks)) sem0 \<and>
      Occupied (releaser Release (run (acquires ctx (take (Suc k) picks)) sem0)) = int k"
    if k: "k < length picks" for k
  proof -
    let ?s = "run (acquires ctx (take k picks)) sem0"
    have occ_k: "Occupied ?s = int k"
      using occ [of "take k picks"] k by simp
    then have room: "can_send ?s"
      using k assms(3) by (simp add: can_send_iff cap)
    have acq: "Acquire (picks ! k) ctx ?s = Some (releaser Release, None, send ?s ())"
      using assms(2) room by (rule Acquire_live)
    have "acquires ctx (take (Suc k) picks)
            = acquires ctx (take k picks) @ [CallAcquire (picks ! k) ctx]"
      using k by (simp add: acquires_def take_Suc_conv_app_nth)
    then have next_state: "run (acquires ctx (take (Suc k) picks)) sem0 = send ?s ()"
      by (simp add: run_snoc acq)
    have released: "releaser Release (send ?s ()) = ?s"
      by (simp add: releaser_Release Release_send)
    show ?thesis
      by (simp add: occ_k acq next_state Occupied_send Release_send released)
  qed
  have full: "Occupied (run (acquires ctx picks) sem0) = capacity"
    using occ [of picks] assms(3) by simp
  then have "\<not> can_send (run (acquires ctx picks) sem0)"
    by (simp add: can_send_iff cap)
  then have parks: "Acquire pick ctx (run (acquires ctx picks) sem0) = None"
    using assms(2) by (simp add: Acquire_full)
  have frees: "Occupied (releaser Release (run (acquires ctx picks) sem0)) = capacity - 1"
    if "0 < capacity"
  proof -
    from that full have "can_recv (run (acquires ctx picks) sem0)"
      by (simp add: can_recv_iff)
    then show ?thesis
      by (simp add: releaser_Release Release_def Occupied_recv full)
  qed
  from step full frees parks show ?thesis by blast
qed

theorem linear_fill_witness:
  "New 2 = Inr \<lparr>cap = 2, buf = []\<rparr> \<and>
   Err Background = None \<and>
   run (acquires Background (take 1 [PickSend, PickDone])) \<lparr>cap = 2, buf = []\<rparr>
     = \<lparr>cap = 2, buf = [()]\<rparr> \<and>
   run (acquires Background (take 2 [PickSend, PickDone])) \<lparr>cap = 2, buf = []\<rparr>
     = \<lparr>cap = 2, buf = [(), ()]\<rparr> \<and>
   Occupied \<lparr>cap = 2, buf = [()]\<rparr> = 1 \<and>
   Acquire PickDone Background \<lparr>cap = 2, buf = [()]\<rparr>
     = Some (releaser Release, None, \<lparr>cap = 2, buf = [(), ()]\<rparr>) \<and>
   Occupied \<lparr>cap = 2, buf = [(), ()]\<rparr> = 2 \<and>
   Release \<lparr>cap = 2, buf = [(), ()]\<rparr> = (None, \<lparr>cap = 2, buf = [()]\<rparr>) \<and>
   releaser Release \<lparr>cap = 2, buf = [(), ()]\<rparr> = \<lparr>cap = 2, buf = [()]\<rparr> \<and>
   Occupied (releaser Release \<lparr>cap = 2, buf = [(), ()]\<rparr>) = 1 \<and>
   Acquire PickSend Background \<lparr>cap = 2, buf = [(), ()]\<rparr> = None"
proof -
  let ?picks = "[PickSend, PickDone]"
  let ?new = "\<lparr>cap = 2, buf = []\<rparr> :: semaphore"
  have h1: "New 2 = Inr ?new"
    by (simp add: New_def make_chan_def)
  have h2: "\<not> Done Background"
    by (simp add: Done_def Background_def)
  have h3: "int (length ?picks) = 2"
    by simp
  have s1: "run (acquires Background (take 1 ?picks)) ?new = \<lparr>cap = 2, buf = [()]\<rparr>"
    by (simp add: acquires_def Acquire_def can_send_def send_def h2)
  have s2: "run (acquires Background (take (Suc 1) ?picks)) ?new = \<lparr>cap = 2, buf = [(), ()]\<rparr>"
    by (simp add: acquires_def Acquire_def can_send_def send_def h2)
  have s2': "run (acquires Background ?picks) ?new = \<lparr>cap = 2, buf = [(), ()]\<rparr>"
    by (simp add: acquires_def Acquire_def can_send_def send_def h2)
  note fill = linear_fill [OF h1 h2 h3, of PickSend]
  have one: "1 < length ?picks"
    by simp
  note step = fill [THEN conjunct1, rule_format, OF one, unfolded s1 s2]
  note rest = fill [THEN conjunct2, unfolded s2']
  have e: "Err Background = None"
    by (simp add: Background_def)
  have t2: "take 2 ?picks = take (Suc 1) ?picks"
    by simp
  from step rest h1 e s1 s2 show ?thesis
    unfolding t2 by simp
qed

subsection \<open>A context that has already fired\<close>

text \<open>
  C5 as stated, that a context which has already fired always gets the cancellation
  error and never a slot even when one is free, does not hold of the \<^verbatim>\<open>select\<close> in
  \<open>Acquire\<close>: with a slot free both communications can proceed, and when the choice
  falls on the send, the call takes the slot and returns no error. Here the semaphore
  is fresh, of capacity one, and the context was cancelled before the call.
\<close>

theorem Acquire_done_ctx_counterexample:
  "New 1 = Inr \<lparr>cap = 1, buf = []\<rparr> \<and>
   Done (cancel Background) \<and>
   Acquire PickSend (cancel Background) \<lparr>cap = 1, buf = []\<rparr>
     = Some (releaser Release, None, \<lparr>cap = 1, buf = [()]\<rparr>) \<and>
   Occupied \<lparr>cap = 1, buf = []\<rparr> = 0 \<and>
   Occupied \<lparr>cap = 1, buf = [()]\<rparr> = 1"
  by (simp add: New_def make_chan_def Done_def cancel_def Background_def Acquire_def
      can_send_def send_def Occupied_def len_chan_def)

text \<open>
  C5, amended. With a context that has already fired, \<open>Acquire\<close> returns at once and
  never parks. It returns \<open>nothing\<close> and \<open>errTimeout\<close>, leaving the semaphore as it was,
  whenever no slot is free and whenever the \<^verbatim>\<open>select\<close> chooses the receive from
  \<^verbatim>\<open>ctx.Done()\<close>; only when a slot is free and the choice falls on the send does it
  take the slot and return a capability with no error.
\<close>

theorem Acquire_done_ctx:
  assumes "Done ctx"
  shows "Acquire pick ctx sem =
           (if Occupied sem < Capacity sem \<and> pick = PickSend
            then Some (releaser Release, None, send sem ())
            else Some (nothing, Some errTimeout, sem))"
  using assms
  by (cases "can_send sem"; cases pick) (simp_all add: Acquire_def can_send_iff [symmetric])

theorem Acquire_done_ctx_witness:
  "Done (cancel Background) \<and>
   Acquire PickDone (cancel Background) \<lparr>cap = 1, buf = []\<rparr>
     = Some (nothing, Some errTimeout, \<lparr>cap = 1, buf = []\<rparr>) \<and>
   Acquire PickSend (cancel Background) \<lparr>cap = 1, buf = [()]\<rparr>
     = Some (nothing, Some errTimeout, \<lparr>cap = 1, buf = [()]\<rparr>) \<and>
   Acquire PickSend (cancel Background) \<lparr>cap = 2, buf = [()]\<rparr>
     = Some (releaser Release, None, send \<lparr>cap = 2, buf = [()]\<rparr> ())"
proof -
  have h: "Done (cancel Background)"
    by (simp add: Done_def cancel_def Background_def)
  from Acquire_done_ctx [OF h, where sem = "\<lparr>cap = 1, buf = []\<rparr>" and pick = PickDone]
    Acquire_done_ctx [OF h, where sem = "\<lparr>cap = 1, buf = [()]\<rparr>" and pick = PickSend]
    Acquire_done_ctx [OF h, where sem = "\<lparr>cap = 2, buf = [()]\<rparr>" and pick = PickSend] h
  show ?thesis
    by (simp add: Occupied_def Capacity_def len_chan_def cap_chan_def)
qed

subsection \<open>Capacity zero\<close>

text \<open>
  C6. On a semaphore of capacity zero the claim, that \<open>Acquire\<close> never succeeds, is not
  what the code does. \<^verbatim>\<open>New(0)\<close> makes an unbuffered channel; an \<open>Acquire\<close> with a live
  context parks on it as a waiting sender; a \<open>Release\<close> that follows finds that sender,
  so its receive proceeds although no slot is occupied: \<open>Release\<close> returns \<^verbatim>\<open>nil\<close> instead
  of \<open>errEmpty\<close>, and the parked \<open>Acquire\<close> returns its capability and no error. The
  occupancy is zero throughout. (With a context that has already fired the same
  semaphore does as the claim says: \<open>Acquire\<close> returns \<open>nothing\<close> and \<open>errTimeout\<close>.)
\<close>

theorem capacity_zero_handoff:
  "New 0 = Inr \<lparr>cap = 0, buf = []\<rparr> \<and>
   Capacity \<lparr>cap = 0, buf = []\<rparr> = 0 \<and>
   Occupied \<lparr>cap = 0, buf = []\<rparr> = 0 \<and>
   Acquire_sys PickSend Background \<lparr>channel = \<lparr>cap = 0, buf = []\<rparr>, sendq = []\<rparr>
     = (None, \<lparr>channel = \<lparr>cap = 0, buf = []\<rparr>, sendq = [()]\<rparr>) \<and>
   Release_sys \<lparr>channel = \<lparr>cap = 0, buf = []\<rparr>, sendq = [()]\<rparr>
     = (None, Some (releaser Release, None), \<lparr>channel = \<lparr>cap = 0, buf = []\<rparr>, sendq = []\<rparr>) \<and>
   Acquire_sys PickSend (cancel Background) \<lparr>channel = \<lparr>cap = 0, buf = []\<rparr>, sendq = []\<rparr>
     = (Some (nothing, Some errTimeout), \<lparr>channel = \<lparr>cap = 0, buf = []\<rparr>, sendq = []\<rparr>)"
  by (simp add: New_def make_chan_def Capacity_def Occupied_def cap_chan_def len_chan_def
      Acquire_sys_def Acquire_def Done_def Background_def cancel_def can_send_def
      Release_sys_def granted_def handoff_def)

subsection \<open>Round trip\<close>

text \<open>
  C7. Round trip. When \<open>Acquire\<close> succeeds, the occupancy has gone up by one, and invoking
  the capability it returned on the semaphore it left gives back the semaphore from
  before the \<open>Acquire\<close>, so the occupancy is again what it was. The capability is a
  \<open>Release\<close> whose error is dropped: on every semaphore it leaves what \<open>Release\<close> leaves,
  and where \<open>Release\<close> reports \<open>errEmpty\<close> it changes nothing and reports nothing.
\<close>

theorem Acquire_release_roundtrip:
  assumes "Acquire pick ctx sem = Some (release, None, sem')"
  shows "Occupied sem' = Occupied sem + 1 \<and> Occupied (release sem') = Occupied sem \<and>
         release sem' = sem \<and>
         (\<forall>s. release s = snd (Release s)) \<and>
         (\<forall>s. fst (Release s) = Some errEmpty \<longrightarrow> release s = s)"
proof -
  from Acquire_cases [of pick ctx sem] assms
  have rel: "release = releaser Release" and sem': "sem' = send sem ()"
    by auto
  have "can_recv sem'"
    by (simp add: sem' can_recv_def send_def)
  then have "Release sem' = (None, sem)"
    by (simp add: Release_def) (simp add: sem' recv_send)
  moreover have "release s = s" if "fst (Release s) = Some errEmpty" for s
    using that by (simp add: rel releaser_def Release_def split: if_splits)
  ultimately show ?thesis
    by (simp add: rel releaser_Release sem' Occupied_send)
qed

theorem Acquire_release_roundtrip_witness:
  "Acquire PickSend Background \<lparr>cap = 2, buf = [()]\<rparr>
     = Some (releaser Release, None, \<lparr>cap = 2, buf = [(), ()]\<rparr>) \<and>
   Occupied \<lparr>cap = 2, buf = [()]\<rparr> = 1 \<and>
   Occupied \<lparr>cap = 2, buf = [(), ()]\<rparr> = 2 \<and>
   releaser Release \<lparr>cap = 2, buf = [(), ()]\<rparr> = \<lparr>cap = 2, buf = [()]\<rparr> \<and>
   Occupied (releaser Release \<lparr>cap = 2, buf = [(), ()]\<rparr>) = 1 \<and>
   Release \<lparr>cap = 2, buf = []\<rparr> = (Some errEmpty, \<lparr>cap = 2, buf = []\<rparr>) \<and>
   releaser Release \<lparr>cap = 2, buf = []\<rparr> = \<lparr>cap = 2, buf = []\<rparr>"
proof -
  have h: "Acquire PickSend Background \<lparr>cap = 2, buf = [()]\<rparr>
             = Some (releaser Release, None, \<lparr>cap = 2, buf = [(), ()]\<rparr>)"
    by (simp add: Acquire_def Done_def Background_def can_send_def send_def)
  have occ: "Occupied \<lparr>cap = 2, buf = [()]\<rparr> = 1"
    by (simp add: Occupied_def len_chan_def)
  have e: "Release \<lparr>cap = 2, buf = []\<rparr> = (Some errEmpty, \<lparr>cap = 2, buf = []\<rparr>)"
    by (simp add: Release_def can_recv_def)
  note rt = Acquire_release_roundtrip [OF h]
  from rt have restored: "releaser Release \<lparr>cap = 2, buf = [(), ()]\<rparr> = \<lparr>cap = 2, buf = [()]\<rparr>"
    by blast
  from rt e have swallow: "releaser Release \<lparr>cap = 2, buf = []\<rparr> = \<lparr>cap = 2, buf = []\<rparr>"
    by simp
  from rt occ have up: "Occupied \<lparr>cap = 2, buf = [(), ()]\<rparr> = 2"
    by simp
  from h occ e restored swallow up show ?thesis
    by simp
qed

subsection \<open>Capacity is immutable\<close>

text \<open>
  C8. \<open>Capacity\<close> of a constructed semaphore is the capacity given to \<open>New\<close>, and it is
  the same after every sequence of calls and after one more call of any kind.
\<close>

theorem Capacity_immutable:
  assumes "New capacity = Inr sem"
  shows "Capacity sem = capacity \<and> Capacity (run cs sem) = capacity \<and>
         Capacity (exec c (run cs sem)) = capacity"
proof -
  from assms have "Capacity sem = capacity"
    by (auto simp: New_Inr Capacity_def cap_chan_def)
  then show ?thesis
    by (simp add: Capacity_run Capacity_exec)
qed

theorem Capacity_immutable_witness:
  "New 7 = Inr \<lparr>cap = 7, buf = []\<rparr> \<and>
   Capacity \<lparr>cap = 7, buf = []\<rparr> = 7 \<and>
   Capacity (run [CallAcquire PickSend Background, CallRelease, CallRelease]
               \<lparr>cap = 7, buf = []\<rparr>) = 7 \<and>
   Capacity (exec (CallAcquire PickDone (cancel Background))
               (run [CallAcquire PickSend Background, CallRelease, CallRelease]
                  \<lparr>cap = 7, buf = []\<rparr>)) = 7"
proof -
  have h: "New 7 = Inr \<lparr>cap = 7, buf = []\<rparr>"
    by (simp add: New_def make_chan_def)
  from Capacity_immutable [OF h] h show ?thesis
    by (simp del: run.simps exec.simps)
qed

subsection \<open>Construction\<close>

text \<open>
  C9. \<open>New\<close> succeeds for every non-negative capacity, zero included, and gives an empty
  semaphore of that capacity. It fails exactly for a negative capacity, and then by the
  run-time panic of \<^verbatim>\<open>make\<close>: the negative capacity is rejected and no semaphore is
  produced.
\<close>

theorem New_spec:
  "(0 \<le> capacity \<longrightarrow>
      (\<exists>sem. New capacity = Inr sem \<and> Capacity sem = capacity \<and> Occupied sem = 0)) \<and>
   (capacity < 0 \<longrightarrow> New capacity = Inl MakechanSizeOutOfRange) \<and>
   ((\<exists>p. New capacity = Inl p) \<longleftrightarrow> capacity < 0)"
  by (simp add: New_def make_chan_def Capacity_def Occupied_def cap_chan_def len_chan_def)

theorem New_spec_witness:
  "New 0 = Inr \<lparr>cap = 0, buf = []\<rparr> \<and>
   New 3 = Inr \<lparr>cap = 3, buf = []\<rparr> \<and>
   Capacity \<lparr>cap = 3, buf = []\<rparr> = 3 \<and>
   New (- 1) = Inl MakechanSizeOutOfRange"
  using New_spec [of 0] New_spec [of 3] New_spec [of "- 1"]
  by (simp add: New_def make_chan_def Capacity_def cap_chan_def)

subsection \<open>One error for every cancellation\<close>

text \<open>
  C10. Every error \<open>Acquire\<close> returns is the one value \<open>errTimeout\<close>, with the message
  ``operation timeout''; it is never an error of the context. Two contexts that have
  both fired, whatever the cause (a cancel, a deadline), give the same result of
  \<open>Acquire\<close> on the same semaphore under the same choice of the \<^verbatim>\<open>select\<close>.
\<close>

theorem Acquire_error_is_errTimeout:
  "(Acquire pick ctx sem = Some (release, Some e, sem') \<longrightarrow>
      e = errTimeout \<and> Error e = ''operation timeout'' \<and> (\<forall>c. e \<noteq> ctxErr c)) \<and>
   (Done ctx \<and> Done ctx' \<longrightarrow> Acquire pick ctx sem = Acquire pick ctx' sem)"
proof -
  have "e = errTimeout" if "Acquire pick ctx sem = Some (release, Some e, sem')"
    using Acquire_cases [of pick ctx sem] that by auto
  moreover have "Acquire pick ctx sem = Acquire pick ctx' sem" if "Done ctx" "Done ctx'"
    using that by (simp add: Acquire_def)
  ultimately show ?thesis by auto
qed

theorem Acquire_error_is_errTimeout_witness:
  "Err (cancel (WithTimeout Background 1000000000 5)) = Some Canceled \<and>
   Err (WithTimeout Background 0 5) = Some DeadlineExceeded \<and>
   Acquire PickDone (cancel (WithTimeout Background 1000000000 5)) \<lparr>cap = 1, buf = []\<rparr>
     = Some (nothing, Some errTimeout, \<lparr>cap = 1, buf = []\<rparr>) \<and>
   Acquire PickDone (WithTimeout Background 0 5) \<lparr>cap = 1, buf = []\<rparr>
     = Some (nothing, Some errTimeout, \<lparr>cap = 1, buf = []\<rparr>) \<and>
   Error errTimeout = ''operation timeout''"
proof -
  have c: "Err (cancel (WithTimeout Background 1000000000 5)) = Some Canceled"
    by (simp add: cancel_def WithTimeout_def Background_def)
  have d: "Err (WithTimeout Background 0 5) = Some DeadlineExceeded"
    by (simp add: WithTimeout_def Background_def)
  have a: "Acquire PickDone (cancel (WithTimeout Background 1000000000 5)) \<lparr>cap = 1, buf = []\<rparr>
             = Some (nothing, Some errTimeout, \<lparr>cap = 1, buf = []\<rparr>)"
    by (simp add: Acquire_def Done_def c can_send_def)
  from Acquire_error_is_errTimeout
    [of PickDone "cancel (WithTimeout Background 1000000000 5)" "\<lparr>cap = 1, buf = []\<rparr>" nothing errTimeout
      "\<lparr>cap = 1, buf = []\<rparr>" "WithTimeout Background 0 5"]
    a c d
  show ?thesis by (simp add: Done_def)
qed

end
